theory Spec2Isabelle
  imports Complex_Main
begin

section \<open>Strings, errors and the parsed document tree\<close>

text \<open>
  A Python \<open>str\<close> is a sequence of Unicode code points, so it is modelled as a list of
  natural numbers. The renderer uses one character outside ASCII (the em dash U+2014 of the
  table separator) and the aggregator's regular expression classifies Unicode white space,
  so bytes would not do. \<open>str\<close> turns an ASCII literal into such a string.
\<close>

type_synonym pystr = "nat list"

definition str :: "string \<Rightarrow> pystr" where
  "str s = map of_char s"

text \<open>\<open>sep.join(xs)\<close> of Python.\<close>

fun join :: "pystr \<Rightarrow> pystr list \<Rightarrow> pystr" where
  "join sep [] = []"
| "join sep [x] = x"
| "join sep (x # y # ys) = x @ sep @ join sep (y # ys)"

text \<open>\<open>s * n\<close> of Python: no copy at all when \<open>n\<close> is negative.\<close>

definition times :: "pystr \<Rightarrow> int \<Rightarrow> pystr" where
  "times s n = concat (replicate (nat n) s)"

text \<open>
  The exceptions that end a call: a missing dictionary key, an index out of range, the
  \<open>ValueError\<close> with which the layout library refuses a paragraph text, the \<open>OSError\<close>
  of a command that cannot be started, and the \<open>SystemExit\<close> of the aggregator.
\<close>

datatype error = KeyError pystr | IndexError | ValueError | OSError | SystemExit

definition ebind :: "error + 'a \<Rightarrow> ('a \<Rightarrow> error + 'b) \<Rightarrow> error + 'b" where
  "ebind m f = (case m of Inl e \<Rightarrow> Inl e | Inr v \<Rightarrow> f v)"

text \<open>\<open>d[key]\<close> on a dictionary where the key may be absent.\<close>

definition getitem :: "string \<Rightarrow> 'a option \<Rightarrow> error + 'a" where
  "getitem key v = (case v of None \<Rightarrow> Inl (KeyError (str key)) | Some x \<Rightarrow> Inr x)"

fun map_err :: "('a \<Rightarrow> error + 'b) \<Rightarrow> 'a list \<Rightarrow> error + 'b list" where
  "map_err f [] = Inr []"
| "map_err f (x # xs) = ebind (f x) (\<lambda>y. ebind (map_err f xs) (\<lambda>ys. Inr (y # ys)))"

text \<open>
  The parser hands the renderer a list of dictionaries. A node is modelled with one optional
  field for each key that \<open>md_to_pdf\<close> reads: \<open>"type"\<close> (always present), \<open>"children"\<close>,
  \<open>"raw"\<close>, \<open>"text"\<close> and \<open>"attrs"\<close>, the latter with the keys \<open>"level"\<close>, \<open>"url"\<close>,
  \<open>"alt"\<close> and \<open>"ordered"\<close>. \<open>None\<close> is a key that the dictionary does not have.
\<close>

record attrs =
  level :: "int option"
  url :: "pystr option"
  alt :: "pystr option"
  ordered :: "bool option"

datatype node = Node (node_type: pystr) (node_children: "node list option")
  (node_raw: "pystr option") (node_text: "pystr option") (node_attrs: "attrs option")

section \<open>The renderer: \<open>md_to_pdf.py\<close>\<close>

subsection \<open>Layout instructions and the style sheet\<close>

text \<open>
  The flowables of the layout library that the renderer constructs. A style is referred to
  by the name under which it is registered; \<open>HRFlowable\<close> carries its width and its
  thickness \<open>0.5\<close>. Pagination is outside the repository and is not modelled: the
  renderer's result is the flow that it hands to \<open>doc.build\<close>.
\<close>

datatype flowable =
    Paragraph pystr pystr
  | ListItem flowable
  | ListFlowable "flowable list" pystr pystr
  | Preformatted pystr pystr
  | Spacer int int
  | HRFlowable pystr rat

text \<open>
  The library's \<open>Paragraph(text, style)\<close> parses the markup of its text when it is
  constructed, during the walk, and raises \<open>ValueError\<close> for a text that it cannot parse:
  a tag that is not closed, for one. The parser is the library's, not the repository's, so
  the renderer takes it as a parameter: \<open>parses text\<close> says that the library accepts the
  text. \<open>Preformatted\<close> does not parse its text.
\<close>

definition new_Paragraph :: "(pystr \<Rightarrow> bool) \<Rightarrow> pystr \<Rightarrow> pystr \<Rightarrow> error + flowable" where
  "new_Paragraph parses txt st = (if parses txt then Inr (Paragraph txt st) else Inl ValueError)"

text \<open>
  The closed examples below run the renderer with \<open>no_tags\<close> for the parser: it accepts
  the texts without a \<open><\<close>, which hold no tag, and refuses the others. The examples use it
  only on texts on which the library does the same: texts without a tag, and texts with a
  \<open><b>\<close> that is never closed.
\<close>

definition no_tags :: "pystr \<Rightarrow> bool" where
  "no_tags s = (60 \<notin> set s)"

text \<open>
  The style names of the layout library's sample sheet, on which \<open>_styles\<close> builds. A sheet
  is the list of its registered names; \<open>ss[name]\<close> and \<open>ss.add\<close> raise \<open>KeyError\<close> for an
  unknown and for an already registered name.
\<close>

definition getSampleStyleSheet :: "pystr list" where
  "getSampleStyleSheet = map str [''Normal'', ''BodyText'', ''Italic'', ''Heading1'', ''Title'',
     ''Heading2'', ''Heading3'', ''Heading4'', ''Heading5'', ''Heading6'', ''Bullet'',
     ''Definition'', ''Code'', ''UnorderedList'', ''OrderedList'']"

definition ss_get :: "pystr list \<Rightarrow> pystr \<Rightarrow> error + pystr" where
  "ss_get ss name = (if name \<in> set ss then Inr name else Inl (KeyError name))"

definition ss_add :: "pystr list \<Rightarrow> string \<Rightarrow> string \<Rightarrow> error + pystr list" where
  "ss_add ss name parent =
     ebind (ss_get ss (str parent)) (\<lambda>_.
       if str name \<in> set ss then Inl (KeyError (str name)) else Inr (ss @ [str name]))"

definition styles :: "error + pystr list" where
  "styles =
     ebind (ss_add getSampleStyleSheet ''H1'' ''Heading1'') (\<lambda>ss.
     ebind (ss_add ss ''H2'' ''Heading2'') (\<lambda>ss.
     ebind (ss_add ss ''H3'' ''Heading3'') (\<lambda>ss.
     ebind (ss_get ss (str ''Code'')) (\<lambda>_.
     ss_add ss ''Body'' ''BodyText''))))"

subsection \<open>The handlers that append to the flow\<close>

definition para ::
  "(pystr \<Rightarrow> bool) \<Rightarrow> pystr list \<Rightarrow> pystr \<Rightarrow> flowable list \<Rightarrow> error + flowable list" where
  "para parses ss txt flow =
     ebind (ss_get ss (str ''Body'')) (\<lambda>st.
     ebind (new_Paragraph parses txt st) (\<lambda>p. Inr (flow @ [p])))"

text \<open>\<open>{1:"H1",2:"H2",3:"H3"}.get(level, "H3")\<close>\<close>

definition heading_name :: "int \<Rightarrow> pystr" where
  "heading_name lvl =
     (if lvl = 1 then str ''H1'' else if lvl = 2 then str ''H2''
      else if lvl = 3 then str ''H3'' else str ''H3'')"

definition heading ::
  "(pystr \<Rightarrow> bool) \<Rightarrow> pystr list \<Rightarrow> pystr \<Rightarrow> int \<Rightarrow> flowable list \<Rightarrow> error + flowable list" where
  "heading parses ss txt lvl flow =
     ebind (ss_get ss (heading_name lvl)) (\<lambda>st.
     ebind (new_Paragraph parses txt st) (\<lambda>p. Inr (flow @ [p])))"

fun bullet_items ::
  "(pystr \<Rightarrow> bool) \<Rightarrow> pystr list \<Rightarrow> flowable list \<Rightarrow> pystr list \<Rightarrow> error + flowable list" where
  "bullet_items parses ss lst [] = Inr lst"
| "bullet_items parses ss lst (it # items) =
     ebind (ss_get ss (str ''Body'')) (\<lambda>st.
     ebind (new_Paragraph parses it st) (\<lambda>p.
       bullet_items parses ss (lst @ [ListItem p]) items))"

definition bullet_list ::
  "(pystr \<Rightarrow> bool) \<Rightarrow> pystr list \<Rightarrow> pystr list \<Rightarrow> bool \<Rightarrow> flowable list
     \<Rightarrow> error + flowable list" where
  "bullet_list parses ss items ord flow =
     ebind (bullet_items parses ss [] items) (\<lambda>lst.
       Inr (flow @ [ListFlowable lst (if ord then str ''1'' else str ''bullet'') (str ''1'')]))"

definition codeblock :: "pystr list \<Rightarrow> pystr \<Rightarrow> flowable list \<Rightarrow> error + flowable list" where
  "codeblock ss code flow =
     ebind (ss_get ss (str ''Code'')) (\<lambda>st. Inr (flow @ [Preformatted code st]))"

definition hr :: "flowable list \<Rightarrow> flowable list" where
  "hr flow = ((flow @ [Spacer 1 6]) @ [HRFlowable (str ''100%'') (1 / 2)]) @ [Spacer 1 6]"

subsection \<open>The inline composer\<close>

text \<open>
  The loop of \<open>inline\<close> adds each node's text to \<open>out\<close> from left to right and stops at
  the first node that raises; \<open>inline_node\<close> is the text its body adds for one node.
\<close>

fun inline :: "node list \<Rightarrow> error + pystr"
  and inline_node :: "node \<Rightarrow> error + pystr" where
  "inline [] = Inr []"
| "inline (n # ns) =
     (case inline_node n of Inl e \<Rightarrow> Inl e
      | Inr s \<Rightarrow> (case inline ns of Inl e \<Rightarrow> Inl e | Inr r \<Rightarrow> Inr (s @ r)))"
| "inline_node (Node t ch rw tx ats) =
     (if t = str ''text'' then getitem ''raw'' rw
      else if t = str ''linebreak'' then Inr (str ''<br/>'')
      else if t = str ''softbreak'' then Inr (str '' '')
      else if t = str ''emphasis'' then
        (case ch of None \<Rightarrow> Inl (KeyError (str ''children''))
         | Some cs \<Rightarrow> (case inline cs of Inl e \<Rightarrow> Inl e
             | Inr s \<Rightarrow> Inr (str ''<i>'' @ s @ str ''</i>'')))
      else if t = str ''strong'' then
        (case ch of None \<Rightarrow> Inl (KeyError (str ''children''))
         | Some cs \<Rightarrow> (case inline cs of Inl e \<Rightarrow> Inl e
             | Inr s \<Rightarrow> Inr (str ''<b>'' @ s @ str ''</b>'')))
      else if t = str ''link'' then
        (case ch of None \<Rightarrow> Inl (KeyError (str ''children''))
         | Some cs \<Rightarrow> (case inline cs of Inl e \<Rightarrow> Inl e
             | Inr label \<Rightarrow>
                 ebind (getitem ''attrs'' ats) (\<lambda>a.
                 ebind (getitem ''url'' (url a)) (\<lambda>href.
                   Inr (if href \<noteq> [] then label @ str '' ('' @ href @ str '')'' else label)))))
      else if t = str ''codespan'' then
        ebind (getitem ''raw'' rw) (\<lambda>r.
          Inr (str ''<font face='Courier'>'' @ r @ str ''</font>''))
      else if t = str ''image'' then
        ebind (getitem ''attrs'' ats) (\<lambda>a.
        ebind (getitem ''url'' (url a)) (\<lambda>src.
          Inr (str ''[Image: '' @ (case alt a of None \<Rightarrow> [] | Some x \<Rightarrow> x)
               @ str ''] ('' @ src @ str '')'')))
      else (case ch of None \<Rightarrow> Inr [] | Some cs \<Rightarrow> inline cs))"

subsection \<open>The block walker\<close>

text \<open>The inner loop of the list branch: the chunks of one list item.\<close>

fun list_chunks :: "pystr list \<Rightarrow> node list \<Rightarrow> error + pystr list" where
  "list_chunks chunks [] = Inr chunks"
| "list_chunks chunks (c # cs) =
     (if node_type c = str ''paragraph'' then
        ebind (getitem ''children'' (node_children c)) (\<lambda>k.
        ebind (inline k) (\<lambda>s. list_chunks (chunks @ [s]) cs))
      else if node_type c = str ''text'' then
        ebind (getitem ''text'' (node_text c)) (\<lambda>s. list_chunks (chunks @ [s]) cs)
      else list_chunks chunks cs)"

text \<open>The outer loop of the list branch: one string per list item.\<close>

fun list_items :: "pystr list \<Rightarrow> node list \<Rightarrow> error + pystr list" where
  "list_items items [] = Inr items"
| "list_items items (li # lis) =
     ebind (list_chunks [] (case node_children li of None \<Rightarrow> [] | Some cs \<Rightarrow> cs)) (\<lambda>chunks.
       list_items (items @ [join (str '' '') chunks]) lis)"

text \<open>\<open>" | ".join([inline(cell["children"]) for cell in cells])\<close>\<close>

definition row_line :: "node list \<Rightarrow> error + pystr" where
  "row_line cells =
     ebind (map_err (\<lambda>cell. ebind (getitem ''children'' (node_children cell)) inline) cells)
       (\<lambda>texts. Inr (join (str '' | '') texts))"

text \<open>One pass of the \<open>while\<close> loop: what the branch for the node's type does to the flow.\<close>

definition block ::
  "(pystr \<Rightarrow> bool) \<Rightarrow> pystr list \<Rightarrow> node \<Rightarrow> flowable list \<Rightarrow> error + flowable list" where
  "block parses ss node flow =
     (let t = node_type node in
      if t = str ''heading'' then
        ebind (getitem ''children'' (node_children node)) (\<lambda>cs.
        ebind (inline cs) (\<lambda>txt.
        ebind (getitem ''attrs'' (node_attrs node)) (\<lambda>a.
        ebind (getitem ''level'' (level a)) (\<lambda>lvl. heading parses ss txt lvl flow))))
      else if t = str ''paragraph'' then
        ebind (getitem ''children'' (node_children node)) (\<lambda>cs.
        ebind (inline cs) (\<lambda>txt. para parses ss txt flow))
      else if t = str ''block_quote'' then
        ebind (case node_children node of
                 Some (c # _) \<Rightarrow> ebind (getitem ''children'' (node_children c)) inline
               | _ \<Rightarrow> Inr []) (\<lambda>txt.
        ebind (ss_get ss (str ''Body'')) (\<lambda>st.
        ebind (new_Paragraph parses (str ''&ldquo;'' @ txt @ str ''&rdquo;'') st) (\<lambda>p.
          Inr (flow @ [p]))))
      else if t = str ''list'' then
        ebind (getitem ''children'' (node_children node)) (\<lambda>lis.
        ebind (list_items [] lis) (\<lambda>items.
        ebind (getitem ''attrs'' (node_attrs node)) (\<lambda>a.
          bullet_list parses ss items (case ordered a of None \<Rightarrow> False | Some b \<Rightarrow> b) flow)))
      else if t = str ''thematic_break'' then Inr (hr flow)
      else if t = str ''code'' then
        ebind (getitem ''text'' (node_text node)) (\<lambda>code. codeblock ss code flow)
      else if t = str ''table'' then
        ebind (getitem ''children'' (node_children node)) (\<lambda>rs.
        ebind (case rs of [] \<Rightarrow> Inl IndexError | r # _ \<Rightarrow> Inr r) (\<lambda>r0.
        ebind (getitem ''children'' (node_children r0)) (\<lambda>hcells.
        ebind (row_line hcells) (\<lambda>hline.
        ebind (map_err (\<lambda>row. ebind (getitem ''children'' (node_children row)) row_line)
                 (drop 1 rs)) (\<lambda>rows.
          para parses ss (join [10] ([hline] @ [times [8212] 20] @ rows)) flow)))))
      else
        (case node_children node of
           Some cs \<Rightarrow> ebind (inline cs) (\<lambda>txt. para parses ss txt flow)
         | None \<Rightarrow> Inr flow))"

text \<open>The \<open>while i < len(ast)\<close> loop, from the flow built so far.\<close>

fun walk ::
  "(pystr \<Rightarrow> bool) \<Rightarrow> pystr list \<Rightarrow> flowable list \<Rightarrow> node list \<Rightarrow> error + flowable list" where
  "walk parses ss flow [] = Inr flow"
| "walk parses ss flow (node # ast) =
     ebind (block parses ss node flow) (\<lambda>flow'. walk parses ss flow' ast)"

text \<open>
  \<open>md_to_pdf\<close> from the parsed tree on: the result is the flow given to \<open>doc.build\<close>, or the
  exception that ends the call before anything is built.
\<close>

definition md_to_pdf :: "(pystr \<Rightarrow> bool) \<Rightarrow> node list \<Rightarrow> error + flowable list" where
  "md_to_pdf parses ast = ebind styles (\<lambda>ss. walk parses ss [] ast)"

subsection \<open>Vocabulary of the properties\<close>

text \<open>
  The sheet that \<open>_styles\<close> returns, and the type names that the two dispatchers test
  for; a node of any other type takes the final \<open>else\<close> branch.
\<close>

definition sheet :: "pystr list" where
  "sheet = getSampleStyleSheet @ map str [''H1'', ''H2'', ''H3'', ''Body'']"

definition inline_kinds :: "pystr list" where
  "inline_kinds = map str [''text'', ''linebreak'', ''softbreak'', ''emphasis'', ''strong'',
     ''link'', ''codespan'', ''image'']"

definition block_kinds :: "pystr list" where
  "block_kinds = map str [''heading'', ''paragraph'', ''block_quote'', ''list'',
     ''thematic_break'', ''code'', ''table'']"

text \<open>
  A list of inline nodes in which every node of a type that the composer knows has the keys
  that its branch reads, at every depth; a node of any other type may have any keys.
\<close>

fun has_keys :: "node list \<Rightarrow> bool"
  and has_keys_node :: "node \<Rightarrow> bool" where
  "has_keys [] = True"
| "has_keys (n # ns) = (has_keys_node n \<and> has_keys ns)"
| "has_keys_node (Node t ch rw tx ats) =
     (if t = str ''text'' \<or> t = str ''codespan'' then rw \<noteq> None
      else if t = str ''linebreak'' \<or> t = str ''softbreak'' then True
      else if t = str ''emphasis'' \<or> t = str ''strong'' then
        (case ch of None \<Rightarrow> False | Some cs \<Rightarrow> has_keys cs)
      else if t = str ''link'' then
        (case ch of None \<Rightarrow> False | Some cs \<Rightarrow> has_keys cs) \<and>
        (case ats of None \<Rightarrow> False | Some a \<Rightarrow> url a \<noteq> None)
      else if t = str ''image'' then
        (case ats of None \<Rightarrow> False | Some a \<Rightarrow> url a \<noteq> None)
      else (case ch of None \<Rightarrow> True | Some cs \<Rightarrow> has_keys cs))"

text \<open>
  The parts of a list item, a part of the type paragraph, a part of the type text, and a
  paragraph part whose inline content composes to a text.
\<close>

definition item_parts :: "node \<Rightarrow> node list" where
  "item_parts li = (case node_children li of None \<Rightarrow> [] | Some cs \<Rightarrow> cs)"

definition is_paragraph :: "node \<Rightarrow> bool" where
  "is_paragraph c = (node_type c = str ''paragraph'')"

definition is_bare_text :: "node \<Rightarrow> bool" where
  "is_bare_text c = (node_type c = str ''text'')"

definition paragraph_of :: "node \<Rightarrow> pystr \<Rightarrow> bool" where
  "paragraph_of c s = (case node_children c of None \<Rightarrow> False | Some k \<Rightarrow> inline k = Inr s)"

text \<open>
  A table cell with inline content that composes to a text, and a row of such cells.
\<close>

definition cell_of :: "node \<Rightarrow> pystr \<Rightarrow> bool" where
  "cell_of c s = (case node_children c of None \<Rightarrow> False | Some k \<Rightarrow> inline k = Inr s)"

definition row_of :: "node \<Rightarrow> pystr list \<Rightarrow> bool" where
  "row_of r texts =
     (case node_children r of None \<Rightarrow> False | Some cells \<Rightarrow> list_all2 cell_of cells texts)"

section \<open>The aggregator and the build: \<open>build_all_md.py\<close>\<close>

subsection \<open>Heading demotion\<close>

text \<open>
  \<open>demote_headings\<close> is \<open>re.sub(r"(?m)^(#{1,6})\s", repl, md)\<close>. The regular
  expression engine is the language's library; what it does with this pattern is modelled
  as follows. \<open>is_space\<close> is the class \<open>\s\<close> on a \<open>str\<close>: the Unicode white space.
  \<open>match_at 6 s\<close> matches \<open>#{1,6}\s\<close> at the head of \<open>s\<close>, trying six hashes first
  and then fewer, and returns the number of hashes of group 1, the white space character
  that was matched and the text after the match. \<open>sub_from\<close> is the scan of \<open>re.sub\<close>
  from left to right: \<open>bol\<close> says whether \<open>^\<close> matches at the current position, which
  in multi-line mode is the start of the text and the position after each newline; a match
  is replaced by \<open>repl\<close> and the scan goes on after it, any other character is copied.
\<close>

definition is_space :: "nat \<Rightarrow> bool" where
  "is_space c =
     ((9 \<le> c \<and> c \<le> 13) \<or> (28 \<le> c \<and> c \<le> 32) \<or> c = 133 \<or> c = 160 \<or> c = 5760 \<or>
      (8192 \<le> c \<and> c \<le> 8202) \<or> c = 8232 \<or> c = 8233 \<or> c = 8239 \<or> c = 8287 \<or> c = 12288)"

fun match_at :: "nat \<Rightarrow> pystr \<Rightarrow> (nat \<times> nat \<times> pystr) option" where
  "match_at 0 s = None"
| "match_at (Suc k) s =
     (if take (Suc k) s = replicate (Suc k) 35 then
        (case drop (Suc k) s of
           [] \<Rightarrow> match_at k s
         | w # rest \<Rightarrow> if is_space w then Some (Suc k, w, rest) else match_at k s)
      else match_at k s)"

definition repl :: "int \<Rightarrow> nat \<Rightarrow> pystr" where
  "repl delta hashes = times [35] (min 6 (int hashes + delta)) @ str '' ''"

function sub_from :: "int \<Rightarrow> bool \<Rightarrow> pystr \<Rightarrow> pystr" where
  "sub_from delta bol [] = []"
| "sub_from delta bol (c # cs) =
     (case (if bol then match_at 6 (c # cs) else None) of
        Some (hashes, w, rest) \<Rightarrow> repl delta hashes @ sub_from delta (w = 10) rest
      | None \<Rightarrow> c # sub_from delta (c = 10) cs)"
  by pat_completeness auto
termination
proof (relation "measure (\<lambda>(delta, bol, s). length s)")
  show "wf (measure (\<lambda>(delta, bol, s). length s))" by simp
next
  fix delta :: int and bol :: bool and c :: nat and cs :: pystr
    and x2 :: "nat \<times> nat \<times> pystr" and hashes :: nat and y :: "nat \<times> pystr"
    and w :: nat and rest :: pystr
  assume "(if bol then match_at 6 (c # cs) else None) = Some x2"
    and "(hashes, y) = x2" and "(w, rest) = y"
  then have m: "match_at 6 (c # cs) = Some (hashes, w, rest)"
    by (auto split: if_splits)
  have shorter: "match_at n s = Some (hashes, w, rest) \<Longrightarrow> length rest < length s"
    for n and s :: pystr
  proof (induction n)
    case 0
    then show ?case by simp
  next
    case (Suc n)
    show ?case
    proof (cases "take (Suc n) s = replicate (Suc n) 35")
      case False
      then show ?thesis using Suc by simp
    next
      case True
      show ?thesis
      proof (cases "drop (Suc n) s")
        case Nil
        then show ?thesis using Suc True by simp
      next
        case (Cons v tail)
        have "length (drop (Suc n) s) \<le> length s" by simp
        then have "length tail < length s" using Cons by simp
        then show ?thesis using Suc True Cons by (auto split: if_splits)
      qed
    qed
  qed
  from shorter [OF m]
  show "((delta, w = 10, rest), delta, bol, c # cs) \<in> measure (\<lambda>(delta, bol, s). length s)"
    by simp
next
  fix delta :: int and bol :: bool and c :: nat and cs :: pystr
  show "((delta, c = 10, cs), delta, bol, c # cs) \<in> measure (\<lambda>(delta, bol, s). length s)"
    by simp
qed

definition demote_headings :: "pystr \<Rightarrow> int \<Rightarrow> pystr" where
  "demote_headings md delta = sub_from delta True md"

subsection \<open>The two rendering paths\<close>

text \<open>
  The host is what \<open>main\<close> asks of its environment: whether the source folder exists,
  what \<open>shutil.which\<close> finds, and what \<open>subprocess.run(args, check=True)\<close> does with a
  command line: the command exits with a status, and the call raises
  \<open>CalledProcessError\<close> exactly when the status is not zero, or the command cannot be
  started and the call raises \<open>OSError\<close>. A run yields its trace, the external commands
  that were started or tried and the call of the in-process renderer, in order, and how it
  ended. \<open>found\<close> is the truth value of what \<open>shutil.which\<close> returns. What the
  in-process renderer does once it is called is the other module.
\<close>

datatype event = Run "pystr list" | Md_to_pdf pystr pystr

datatype outcome = Exit int | Cannot_start

record host =
  root :: pystr
  src_exists :: bool
  which :: "pystr \<Rightarrow> pystr option"
  subprocess_run :: "pystr list \<Rightarrow> outcome"

definition OUT_MD :: "host \<Rightarrow> pystr" where
  "OUT_MD h = root h @ str ''/data/esphome-all.md''"

definition OUT_PDF :: "host \<Rightarrow> pystr" where
  "OUT_PDF h = root h @ str ''/data/esphome-all.pdf''"

definition found :: "pystr option \<Rightarrow> bool" where
  "found p = (case p of None \<Rightarrow> False | Some path \<Rightarrow> path \<noteq> [])"

definition pandoc_args :: "pystr \<Rightarrow> pystr \<Rightarrow> pystr \<Rightarrow> pystr list" where
  "pandoc_args pandoc md_path pdf_path =
     [pandoc, md_path, str ''-o'', pdf_path, str ''--from'', str ''markdown+smart'', str ''--toc'']"

definition run_pandoc :: "host \<Rightarrow> pystr \<Rightarrow> pystr \<Rightarrow> event list \<times> (error + bool)" where
  "run_pandoc h md_path pdf_path =
     (case which h (str ''pandoc'') of
        None \<Rightarrow> ([], Inr False)
      | Some pandoc \<Rightarrow>
          (if pandoc = [] then ([], Inr False)
           else
             (let args = pandoc_args pandoc md_path pdf_path in
              (case subprocess_run h args of
                 Cannot_start \<Rightarrow> ([Run args], Inl OSError)
               | Exit status \<Rightarrow>
                   (if status = 0 then ([Run args], Inr True)
                    else if found (which h (str ''wkhtmltopdf'')) then
                      (let args2 = args @ [str ''--pdf-engine=wkhtmltopdf''] in
                       (case subprocess_run h args2 of
                          Cannot_start \<Rightarrow> ([Run args, Run args2], Inl OSError)
                        | Exit status2 \<Rightarrow>
                            (if status2 = 0 then ([Run args, Run args2], Inr True)
                             else ([Run args, Run args2], Inr False))))
                    else ([Run args], Inr False))))))"

definition main :: "host \<Rightarrow> event list \<times> (error + unit)" where
  "main h =
     (if \<not> src_exists h then ([], Inl SystemExit)
      else
        (case run_pandoc h (OUT_MD h) (OUT_PDF h) of
           (trace, Inl e) \<Rightarrow> (trace, Inl e)
         | (trace, Inr ok) \<Rightarrow>
             (if \<not> ok then (trace @ [Md_to_pdf (OUT_MD h) (OUT_PDF h)], Inr ())
              else (trace, Inr ()))))"

definition runs :: "event list \<Rightarrow> pystr list list" where
  "runs trace = concat (map (\<lambda>e. case e of Run args \<Rightarrow> [args] | _ \<Rightarrow> []) trace)"

definition fallbacks :: "event list \<Rightarrow> nat" where
  "fallbacks trace = length (filter (\<lambda>e. case e of Md_to_pdf _ _ \<Rightarrow> True | _ \<Rightarrow> False) trace)"

section \<open>Properties of the renderer\<close>

subsection \<open>The style sheet and the handlers\<close>

lemma ebind_Inr [simp]: "ebind (Inr v) f = f v"
  by (simp add: ebind_def)

lemma ebind_Inl [simp]: "ebind (Inl e) f = Inl e"
  by (simp add: ebind_def)

lemma ebind_Inr_right [simp]: "ebind m Inr = m"
  by (simp add: ebind_def split: sum.splits)

lemma getitem_Some [simp]: "getitem key (Some x) = Inr x"
  by (simp add: getitem_def)

lemma replicate_20: "replicate 20 x = [x, x, x, x, x, x, x, x, x, x, x, x, x, x, x, x, x, x, x, x]"
  by (simp add: numeral_eq_Suc)

lemma ebind_assoc: "ebind (ebind m f) g = ebind m (\<lambda>x. ebind (f x) g)"
  by (simp add: ebind_def split: sum.splits)


lemma styles_sheet: "styles = Inr sheet"
  by (simp add: styles_def sheet_def ss_add_def ss_get_def getSampleStyleSheet_def str_def)

lemma ss_get_Body: "ss_get sheet (str ''Body'') = Inr (str ''Body'')"
  by (simp add: sheet_def ss_get_def)


lemma ss_get_heading: "ss_get sheet (heading_name lvl) = Inr (heading_name lvl)"
  by (simp add: sheet_def ss_get_def heading_name_def)

lemma para_sheet:
  "para parses sheet txt flow =
     (if parses txt then Inr (flow @ [Paragraph txt (str ''Body'')]) else Inl ValueError)"
  by (simp add: para_def ss_get_Body new_Paragraph_def)

lemma para_sheet_Nil:
  "para parses sheet txt [] =
     (if parses txt then Inr [Paragraph txt (str ''Body'')] else Inl ValueError)"
  by (simp add: para_sheet)

lemma new_Paragraph_single:
  "ebind (new_Paragraph parses txt st) (\<lambda>p. Inr [p]) =
     (if parses txt then Inr [Paragraph txt st] else Inl ValueError)"
  by (simp add: new_Paragraph_def)

lemma heading_sheet:
  "heading parses sheet txt lvl flow =
     (if parses txt then Inr (flow @ [Paragraph txt (heading_name lvl)]) else Inl ValueError)"
  by (simp add: heading_def ss_get_heading new_Paragraph_def)



subsection \<open>The walk, block by block\<close>

lemma md_to_pdf_walk: "md_to_pdf parses ast = walk parses sheet [] ast"
  by (simp add: md_to_pdf_def styles_sheet)

text \<open>A branch only ever appends to the flow it is given.\<close>

lemma block_flow:
  "block parses ss n flow = ebind (block parses ss n []) (\<lambda>out. Inr (flow @ out))"
  unfolding block_def Let_def
  by (simp add: para_def heading_def codeblock_def bullet_list_def hr_def
      ebind_assoc split: option.split cong: if_cong)

lemma walk_flow:
  "walk parses ss flow ast = ebind (walk parses ss [] ast) (\<lambda>out. Inr (flow @ out))"
proof (induction ast arbitrary: flow)
  case Nil
  show ?case by simp
next
  case (Cons n ast)
  show ?case
  proof (cases "block parses ss n []")
    case (Inl e)
    then show ?thesis using block_flow [of parses ss n flow] by simp
  next
    case (Inr out)
    then have "block parses ss n flow = Inr (flow @ out)"
      using block_flow [of parses ss n flow] by simp
    then show ?thesis
      using Inr Cons.IH [of "flow @ out"] Cons.IH [of out]
      by (cases "walk parses ss [] ast") simp_all
  qed
qed

lemma md_to_pdf_Cons:
  "md_to_pdf parses (n # ast) =
     ebind (block parses sheet n [])
       (\<lambda>out. ebind (md_to_pdf parses ast) (\<lambda>rest. Inr (out @ rest)))"
proof (cases "block parses sheet n []")
  case (Inl e)
  then show ?thesis by (simp add: md_to_pdf_walk)
next
  case (Inr out)
  then show ?thesis using walk_flow [of parses sheet out ast] by (simp add: md_to_pdf_walk)
qed

lemma md_to_pdf_single: "md_to_pdf parses [n] = block parses sheet n []"
  by (cases "block parses sheet n []") (simp_all add: md_to_pdf_walk)

subsection \<open>Headings\<close>

text \<open>
  C9, as the code has it. For every integer level, also 0, a negative one or one above 6,
  the lookup of the heading handler yields one of the names H1, H2 and H3, and H3 for every
  level other than 1 and 2, and the name is registered in the sheet. So no level makes the
  handler fail: it appends its paragraph when the library accepts the text, and raises
  \<open>ValueError\<close> when the library refuses it, whatever the level.
\<close>

theorem heading_name_total:
  "heading_name lvl \<in> {str ''H1'', str ''H2'', str ''H3''} \<and>
   (lvl \<noteq> 1 \<and> lvl \<noteq> 2 \<longrightarrow> heading_name lvl = str ''H3'') \<and>
   (\<exists>ss. styles = Inr ss \<and> ss_get ss (heading_name lvl) = Inr (heading_name lvl) \<and>
      heading parses ss txt lvl flow =
        (if parses txt then Inr (flow @ [Paragraph txt (heading_name lvl)])
         else Inl ValueError))"
  by (simp add: styles_sheet heading_sheet ss_get_heading) (simp add: heading_name_def)

theorem heading_name_total_witness:
  "(0::int) \<noteq> 1 \<and> (0::int) \<noteq> 2 \<and> heading_name 0 = str ''H3'' \<and>
   (- 7::int) \<noteq> 1 \<and> (- 7::int) \<noteq> 2 \<and> heading_name (- 7) = str ''H3'' \<and>
   (42::int) \<noteq> 1 \<and> (42::int) \<noteq> 2 \<and> heading_name 42 = str ''H3''"
  using heading_name_total [of 0 no_tags "[]" "[]"] heading_name_total [of "- 7" no_tags "[]" "[]"]
    heading_name_total [of 42 no_tags "[]" "[]"]
  by simp

text \<open>
  C9 as stated fails: the handler raises at the level 0 when the text has a tag that is
  never closed.
\<close>

theorem heading_raises_on_markup:
  "styles = Inr sheet \<and> heading no_tags sheet (str ''<b>x'') 0 [] = Inl ValueError"
  by (simp add: styles_sheet heading_sheet no_tags_def str_def)

text \<open>
  C3, as the code has it. A heading block of level 1 to 6 whose composed text the library
  accepts yields exactly one paragraph flowable, in the style named "H" followed by the
  digit of \<open>min(level, 3)\<close>: H1 and H2 for the levels 1 and 2, H3 for the levels 3 to 6.
  When the library refuses the text the walk ends with \<open>ValueError\<close>.
\<close>

theorem heading_block_style:
  assumes "node_type n = str ''heading''"
    and "node_children n = Some cs" and "inline cs = Inr txt"
    and "node_attrs n = Some a" and "level a = Some lvl"
    and "1 \<le> lvl" and "lvl \<le> 6"
  shows "md_to_pdf parses [n] =
     (if parses txt then Inr [Paragraph txt (str ''H'' @ [48 + nat (min lvl 3)])]
      else Inl ValueError)"
proof -
  have "heading_name lvl = str ''H'' @ [48 + nat (min lvl 3)]"
    using assms(6,7) by (auto simp add: heading_name_def str_def min_def)
  then show ?thesis
    using assms(1-5) by (simp add: md_to_pdf_single block_def heading_sheet)
qed

theorem heading_block_style_witness:
  "md_to_pdf no_tags [Node (str ''heading'') (Some [Node (str ''text'') None (Some (str ''x'')) None None])
       None None (Some \<lparr>level = Some 4, url = None, alt = None, ordered = None\<rparr>)]
     = Inr [Paragraph (str ''x'') (str ''H3'')] \<and>
   md_to_pdf no_tags [Node (str ''heading'') (Some [Node (str ''text'') None (Some (str ''x'')) None None])
       None None (Some \<lparr>level = Some 5, url = None, alt = None, ordered = None\<rparr>)]
     = Inr [Paragraph (str ''x'') (str ''H3'')] \<and>
   md_to_pdf no_tags [Node (str ''heading'') (Some [Node (str ''text'') None (Some (str ''x'')) None None])
       None None (Some \<lparr>level = Some 6, url = None, alt = None, ordered = None\<rparr>)]
     = Inr [Paragraph (str ''x'') (str ''H3'')] \<and>
   md_to_pdf no_tags [Node (str ''heading'') (Some [Node (str ''text'') None (Some (str ''x'')) None None])
       None None (Some \<lparr>level = Some 2, url = None, alt = None, ordered = None\<rparr>)]
     = Inr [Paragraph (str ''x'') (str ''H2'')]"
proof -
  have c: "inline [Node (str ''text'') None (Some (str ''x'')) None None] = Inr (str ''x'')"
    by simp
  have p: "no_tags (str ''x'')" by (simp add: no_tags_def str_def)
  show ?thesis
    using p heading_block_style [OF _ _ c, of _ _ 4 no_tags]
      heading_block_style [OF _ _ c, of _ _ 5 no_tags]
      heading_block_style [OF _ _ c, of _ _ 6 no_tags]
      heading_block_style [OF _ _ c, of _ _ 2 no_tags]
    by (simp add: str_def)
qed

text \<open>
  C3 as stated fails: a heading of level 1 that holds the code span \<open><b>\<close> composes to a
  text with a tag that is never closed, and the walk ends without an instruction.
\<close>

theorem heading_block_raises_on_markup:
  "md_to_pdf no_tags [Node (str ''heading'')
       (Some [Node (str ''codespan'') None (Some (str ''<b>'')) None None])
       None None (Some \<lparr>level = Some 1, url = None, alt = None, ordered = None\<rparr>)]
     = Inl ValueError"
  by (simp add: md_to_pdf_single block_def heading_sheet no_tags_def str_def)

subsection \<open>Inline composition\<close>

text \<open>
  C5. A link node composes to its label's text followed by " (" + URL + ")" when the URL is
  not empty, and to the label's text alone when the URL is empty.
\<close>

theorem link_label_url:
  assumes "node_type n = str ''link''"
    and "node_children n = Some cs" and "inline cs = Inr label"
    and "node_attrs n = Some a" and "url a = Some href"
  shows "inline [n] =
     Inr (if href = [] then label else label @ str '' ('' @ href @ str '')'')"
  using assms by (cases n) (simp add: getitem_def str_def)

theorem link_label_url_witness:
  "inline [Node (str ''link'') (Some [Node (str ''text'') None (Some (str ''docs'')) None None])
      None None (Some \<lparr>level = None, url = Some (str ''https://esphome.io''), alt = None, ordered = None\<rparr>)]
     = Inr (str ''docs (https://esphome.io)'') \<and>
   inline [Node (str ''link'') (Some [Node (str ''text'') None (Some (str ''docs'')) None None])
      None None (Some \<lparr>level = None, url = Some [], alt = None, ordered = None\<rparr>)]
     = Inr (str ''docs'')"
proof -
  let ?label = "[Node (str ''text'') None (Some (str ''docs'')) None None]"
  let ?a1 = "\<lparr>level = None, url = Some (str ''https://esphome.io''), alt = None, ordered = None\<rparr>"
  let ?a2 = "\<lparr>level = None, url = Some ([]::pystr), alt = None, ordered = None\<rparr>"
  have c: "inline ?label = Inr (str ''docs'')"
    by (simp add: getitem_def)
  have 1: "inline [Node (str ''link'') (Some ?label) None None (Some ?a1)]
     = Inr (if str ''https://esphome.io'' = [] then str ''docs''
            else str ''docs'' @ str '' ('' @ str ''https://esphome.io'' @ str '')'')"
    using c link_label_url [of "Node (str ''link'') (Some ?label) None None (Some ?a1)" ?label
        "str ''docs''" ?a1 "str ''https://esphome.io''"]
    by simp
  have 2: "inline [Node (str ''link'') (Some ?label) None None (Some ?a2)]
     = Inr (if ([]::pystr) = [] then str ''docs'' else str ''docs'' @ str '' ('' @ [] @ str '')'')"
    using c link_label_url [of "Node (str ''link'') (Some ?label) None None (Some ?a2)" ?label
        "str ''docs''" ?a2 "[]"]
    by simp
  show ?thesis using 1 2 by (simp add: str_def)
qed

text \<open>The composer returns a text for every list of nodes that have their keys.\<close>

lemma inline_total:
  "has_keys ns \<Longrightarrow> \<exists>s. inline ns = Inr s"
  "has_keys_node n \<Longrightarrow> \<exists>s. inline_node n = Inr s"
proof (induction ns and n rule: inline_inline_node.induct)
  case 1
  show ?case by simp
next
  case (2 n ns)
  then obtain s r where "inline_node n = Inr s" "inline ns = Inr r" by auto
  then show ?case by simp
next
  case (3 t ch rw tx ats)
  show ?case
  proof (cases "t \<in> set inline_kinds")
    case False
    then have k: "inline_node (Node t ch rw tx ats) = (case ch of None \<Rightarrow> Inr [] | Some cs \<Rightarrow> inline cs)"
      "has_keys_node (Node t ch rw tx ats) = (case ch of None \<Rightarrow> True | Some cs \<Rightarrow> has_keys cs)"
      by (simp_all add: inline_kinds_def)
    show ?thesis
    proof (cases ch)
      case None
      then show ?thesis using k by simp
    next
      case (Some cs)
      then show ?thesis using k "3.prems" "3.IH"(4) False
        by (simp add: inline_kinds_def)
    qed
  next
    case True
    then consider "t = str ''text''" | "t = str ''linebreak''" | "t = str ''softbreak''"
      | "t = str ''emphasis''" | "t = str ''strong''" | "t = str ''link''"
      | "t = str ''codespan''" | "t = str ''image''"
      by (auto simp add: inline_kinds_def)
    then show ?thesis
    proof cases
      case 1
      then show ?thesis using "3.prems" by (auto simp add: getitem_def)
    next
      case 2
      then show ?thesis by (simp add: str_def)
    next
      case 3
      then show ?thesis by (simp add: str_def)
    next
      case 4
      then have ne: "t \<noteq> str ''text''" "t \<noteq> str ''linebreak''" "t \<noteq> str ''softbreak''"
        by (simp_all add: str_def)
      from 4 ne "3.prems" obtain cs where cs: "ch = Some cs" "has_keys cs"
        by (auto simp add: str_def split: option.splits)
      with "3.IH"(1) [OF ne 4 cs(1)] obtain s where "inline cs = Inr s" by auto
      then show ?thesis using 4 ne cs by simp
    next
      case 5
      then have ne: "t \<noteq> str ''text''" "t \<noteq> str ''linebreak''" "t \<noteq> str ''softbreak''"
        "t \<noteq> str ''emphasis''"
        by (simp_all add: str_def)
      from 5 ne "3.prems" obtain cs where cs: "ch = Some cs" "has_keys cs"
        by (auto simp add: str_def split: option.splits)
      with "3.IH"(2) [OF ne 5 cs(1)] obtain s where "inline cs = Inr s" by auto
      then show ?thesis using 5 ne cs by simp
    next
      case 6
      then have ne: "t \<noteq> str ''text''" "t \<noteq> str ''linebreak''" "t \<noteq> str ''softbreak''"
        "t \<noteq> str ''emphasis''" "t \<noteq> str ''strong''"
        by (simp_all add: str_def)
      have ne2: "t \<noteq> str ''codespan''" using 6 by (simp add: str_def)
      from 6 ne ne2 "3.prems" obtain cs a u where cs: "ch = Some cs" "has_keys cs"
        and a: "ats = Some a" "url a = Some u"
        by (auto split: option.splits)
      with "3.IH"(3) [OF ne 6 cs(1)] obtain s where "inline cs = Inr s" by auto
      then show ?thesis using 6 ne cs a by (simp add: getitem_def)
    next
      case 7
      then have ne: "t \<noteq> str ''text''" "t \<noteq> str ''linebreak''" "t \<noteq> str ''softbreak''"
        "t \<noteq> str ''emphasis''" "t \<noteq> str ''strong''" "t \<noteq> str ''link''"
        by (simp_all add: str_def)
      then show ?thesis using 7 "3.prems" by (auto simp add: getitem_def)
    next
      case 8
      then have ne: "t \<noteq> str ''text''" "t \<noteq> str ''linebreak''" "t \<noteq> str ''softbreak''"
        "t \<noteq> str ''emphasis''" "t \<noteq> str ''strong''" "t \<noteq> str ''link''" "t \<noteq> str ''codespan''"
        by (simp_all add: str_def)
      then show ?thesis using 8 "3.prems" by (auto simp add: getitem_def split: option.splits)
    qed
  qed
qed

text \<open>
  C6, as the code has it. An inline node of a type that the composer does not know adds
  the composed text of its children, and nothing when it has none; where the children have
  their keys the composer does not raise. A block of a type that the walker does not know
  adds nothing when it has no children and the walk goes on; with children that have their
  keys it adds one Body paragraph of their composed text and the walk goes on when the
  library accepts that text, and the walk ends with \<open>ValueError\<close> when the library
  refuses it.
\<close>

theorem unrecognized_kinds_degrade:
  assumes "t \<notin> set inline_kinds" and "u \<notin> set block_kinds"
  shows "inline_node (Node t None rw tx ats) = Inr [] \<and>
         inline_node (Node t (Some cs) rw tx ats) = inline cs \<and>
         md_to_pdf parses (Node u None rw tx ats # rest) = md_to_pdf parses rest \<and>
         (has_keys cs \<longrightarrow> (\<exists>s. inline_node (Node t (Some cs) rw tx ats) = Inr s \<and>
            md_to_pdf parses (Node u (Some cs) rw tx ats # rest) =
              (if parses s
               then ebind (md_to_pdf parses rest) (\<lambda>flow. Inr (Paragraph s (str ''Body'') # flow))
               else Inl ValueError)))"
proof -
  have i: "inline_node (Node t None rw tx ats) = Inr []"
    "inline_node (Node t (Some cs) rw tx ats) = inline cs"
    using assms(1) by (simp_all add: inline_kinds_def)
  have b: "block parses sheet (Node u None rw tx ats) [] = Inr []"
    "block parses sheet (Node u (Some cs) rw tx ats) [] =
       ebind (inline cs) (\<lambda>s. if parses s then Inr [Paragraph s (str ''Body'')] else Inl ValueError)"
    using assms(2) by (simp_all add: block_kinds_def block_def para_sheet_Nil)
  have "md_to_pdf parses (Node u None rw tx ats # rest) = md_to_pdf parses rest"
    by (simp add: md_to_pdf_Cons b)
  moreover have "has_keys cs \<longrightarrow> (\<exists>s. inline cs = Inr s \<and>
            md_to_pdf parses (Node u (Some cs) rw tx ats # rest) =
              (if parses s
               then ebind (md_to_pdf parses rest) (\<lambda>flow. Inr (Paragraph s (str ''Body'') # flow))
               else Inl ValueError))"
  proof
    assume "has_keys cs"
    from inline_total(1) [OF this] obtain s where "inline cs = Inr s" by auto
    then show "\<exists>s. inline cs = Inr s \<and>
            md_to_pdf parses (Node u (Some cs) rw tx ats # rest) =
              (if parses s
               then ebind (md_to_pdf parses rest) (\<lambda>flow. Inr (Paragraph s (str ''Body'') # flow))
               else Inl ValueError)"
      by (simp add: md_to_pdf_Cons b)
  qed
  ultimately show ?thesis using i by simp
qed

theorem unrecognized_kinds_degrade_witness:
  "str ''inline_html'' \<notin> set inline_kinds \<and> str ''blank_line'' \<notin> set block_kinds \<and>
   has_keys [Node (str ''text'') None (Some (str ''x'')) None None] \<and>
   inline_node (Node (str ''inline_html'') None (Some (str ''<hr>'')) None None) = Inr [] \<and>
   inline_node (Node (str ''inline_html'')
      (Some [Node (str ''text'') None (Some (str ''x'')) None None]) None None None) = Inr (str ''x'') \<and>
   md_to_pdf no_tags [Node (str ''blank_line'') None None None None] = Inr [] \<and>
   md_to_pdf no_tags [Node (str ''blank_line'')
      (Some [Node (str ''text'') None (Some (str ''x'')) None None]) None None None]
     = Inr [Paragraph (str ''x'') (str ''Body'')]"
proof -
  let ?cs = "[Node (str ''text'') None (Some (str ''x'')) None None]"
  have k: "str ''inline_html'' \<notin> set inline_kinds" "str ''blank_line'' \<notin> set block_kinds"
    by (simp_all add: inline_kinds_def block_kinds_def str_def)
  have h: "has_keys ?cs" by simp
  have e: "md_to_pdf no_tags [] = Inr []" by (simp add: md_to_pdf_walk)
  have c: "inline ?cs = Inr (str ''x'')" by simp
  have p: "no_tags (str ''x'')" by (simp add: no_tags_def str_def)
  show ?thesis
    using unrecognized_kinds_degrade [OF k, of "Some (str ''<hr>'')" None None ?cs no_tags "[]"]
      unrecognized_kinds_degrade [OF k, of None None None ?cs no_tags "[]"] h k e c p
    by auto
qed

text \<open>
  C6 as stated fails: at a block of an unknown type whose one child is the text \<open><b>x\<close>,
  the walk raises.
\<close>

theorem unrecognized_block_raises_on_markup:
  "md_to_pdf no_tags [Node (str ''blank_line'')
      (Some [Node (str ''text'') None (Some (str ''<b>x'')) None None]) None None None]
     = Inl ValueError"
  by (simp add: md_to_pdf_single block_def para_sheet no_tags_def str_def)

subsection \<open>Block quotes\<close>

text \<open>
  C4, as the code has it. A block quote whose first child, if it has one, carries inline
  content yields exactly one Body paragraph when the library accepts its text: the composed
  inline content of the first child between \<open>&ldquo;\<close> and \<open>&rdquo;\<close>, whatever the
  other children are, and the two marks around the empty text when the quote has no
  children. With three paragraphs only the first one's text is in the output. When the
  library refuses the text the walk ends with \<open>ValueError\<close>.
\<close>

theorem block_quote_first_child:
  assumes "node_type n = str ''block_quote''"
  shows "(node_children n = None \<or> node_children n = Some [] \<longrightarrow>
          md_to_pdf parses [n] =
            (if parses (str ''&ldquo;'' @ str ''&rdquo;'')
             then Inr [Paragraph (str ''&ldquo;'' @ str ''&rdquo;'') (str ''Body'')]
             else Inl ValueError)) \<and>
         (node_children n = Some (c # others) \<and> node_children c = Some k \<and> inline k = Inr s \<longrightarrow>
          md_to_pdf parses [n] =
            (if parses (str ''&ldquo;'' @ s @ str ''&rdquo;'')
             then Inr [Paragraph (str ''&ldquo;'' @ s @ str ''&rdquo;'') (str ''Body'')]
             else Inl ValueError))"
proof -
  have t: "node_type n \<noteq> str ''heading''" "node_type n \<noteq> str ''paragraph''"
    using assms by (simp_all add: str_def)
  have b: "block parses sheet n [] =
     ebind (case node_children n of
                 Some (c # _) \<Rightarrow> ebind (getitem ''children'' (node_children c)) inline
               | _ \<Rightarrow> Inr [])
       (\<lambda>s. if parses (str ''&ldquo;'' @ s @ str ''&rdquo;'')
            then Inr [Paragraph (str ''&ldquo;'' @ s @ str ''&rdquo;'') (str ''Body'')]
            else Inl ValueError)"
    unfolding block_def Let_def using assms t by (simp add: ss_get_Body new_Paragraph_single)
  show ?thesis
    unfolding md_to_pdf_single b by auto
qed

theorem block_quote_first_child_witness:
  "md_to_pdf no_tags [Node (str ''block_quote'')
      (Some [Node (str ''paragraph'') (Some [Node (str ''text'') None (Some (str ''one'')) None None]) None None None,
             Node (str ''paragraph'') (Some [Node (str ''text'') None (Some (str ''two'')) None None]) None None None,
             Node (str ''paragraph'') (Some [Node (str ''text'') None (Some (str ''three'')) None None]) None None None])
      None None None]
     = Inr [Paragraph (str ''&ldquo;one&rdquo;'') (str ''Body'')] \<and>
   md_to_pdf no_tags [Node (str ''block_quote'') (Some []) None None None]
     = Inr [Paragraph (str ''&ldquo;&rdquo;'') (str ''Body'')] \<and>
   md_to_pdf no_tags [Node (str ''block_quote'') None None None None]
     = Inr [Paragraph (str ''&ldquo;&rdquo;'') (str ''Body'')]"
proof -
  let ?p1 = "Node (str ''paragraph'') (Some [Node (str ''text'') None (Some (str ''one'')) None None]) None None None"
  let ?p2 = "Node (str ''paragraph'') (Some [Node (str ''text'') None (Some (str ''two'')) None None]) None None None"
  let ?p3 = "Node (str ''paragraph'') (Some [Node (str ''text'') None (Some (str ''three'')) None None]) None None None"
  have c: "inline [Node (str ''text'') None (Some (str ''one'')) None None] = Inr (str ''one'')"
    by simp
  have p: "no_tags (str ''&ldquo;'' @ str ''one'' @ str ''&rdquo;'')"
    "no_tags (str ''&ldquo;'' @ str ''&rdquo;'')"
    by (simp_all add: no_tags_def str_def)
  have 1: "md_to_pdf no_tags [Node (str ''block_quote'') (Some [?p1, ?p2, ?p3]) None None None]
     = Inr [Paragraph (str ''&ldquo;'' @ str ''one'' @ str ''&rdquo;'') (str ''Body'')]"
    using c p block_quote_first_child [of "Node (str ''block_quote'') (Some [?p1, ?p2, ?p3]) None None None"
        no_tags ?p1 "[?p2, ?p3]" "[Node (str ''text'') None (Some (str ''one'')) None None]" "str ''one''"]
    by simp
  have 2: "md_to_pdf no_tags [Node (str ''block_quote'') (Some []) None None None]
     = Inr [Paragraph (str ''&ldquo;'' @ str ''&rdquo;'') (str ''Body'')]"
    using p block_quote_first_child [of "Node (str ''block_quote'') (Some []) None None None" no_tags]
    by simp
  have 3: "md_to_pdf no_tags [Node (str ''block_quote'') None None None None]
     = Inr [Paragraph (str ''&ldquo;'' @ str ''&rdquo;'') (str ''Body'')]"
    using p block_quote_first_child [of "Node (str ''block_quote'') None None None None" no_tags]
    by simp
  have s: "str ''&ldquo;'' @ str ''one'' @ str ''&rdquo;'' = str ''&ldquo;one&rdquo;''"
    "str ''&ldquo;'' @ str ''&rdquo;'' = str ''&ldquo;&rdquo;''"
    by (simp_all add: str_def)
  show ?thesis using 1 2 3 unfolding s by blast
qed

text \<open>
  C4 as stated fails twice. The branch reads \<open>"children"\<close> of the first child without a
  test, beside the test it makes on the quote itself: a quote that starts with a block that
  has no such key, a thematic break for one, ends the walk with \<open>KeyError\<close>. And a quote
  whose first paragraph is the text \<open><b>x\<close> ends it with \<open>ValueError\<close>.
\<close>

theorem block_quote_raises:
  "md_to_pdf no_tags [Node (str ''block_quote'')
      (Some [Node (str ''thematic_break'') None None None None,
             Node (str ''paragraph'') (Some [Node (str ''text'') None (Some (str ''p'')) None None]) None None None])
      None None None]
     = Inl (KeyError (str ''children'')) \<and>
   md_to_pdf no_tags [Node (str ''block_quote'')
      (Some [Node (str ''paragraph'') (Some [Node (str ''text'') None (Some (str ''<b>x'')) None None]) None None None])
      None None None]
     = Inl ValueError"
  by (simp add: md_to_pdf_single block_def getitem_def ss_get_def sheet_def new_Paragraph_def
      no_tags_def str_def)

subsection \<open>Lists\<close>

lemma bullet_items_result:
  "bullet_items parses sheet lst items =
     (if list_all parses items
      then Inr (lst @ map (\<lambda>it. ListItem (Paragraph it (str ''Body''))) items)
      else Inl ValueError)"
  by (induction items arbitrary: lst) (simp_all add: ss_get_Body new_Paragraph_def)

lemma bullet_list_result:
  "bullet_list parses sheet items ord [] =
     (if list_all parses items
      then Inr [ListFlowable (map (\<lambda>it. ListItem (Paragraph it (str ''Body''))) items)
                  (if ord then str ''1'' else str ''bullet'') (str ''1'')]
      else Inl ValueError)"
  by (simp add: bullet_list_def bullet_items_result)

lemma list_chunks_paragraphs:
  "list_all (\<lambda>c. \<not> is_bare_text c) cs \<Longrightarrow>
   list_all2 paragraph_of (filter is_paragraph cs) texts \<Longrightarrow>
   list_chunks acc cs = Inr (acc @ texts)"
proof (induction cs arbitrary: acc texts)
  case Nil
  then show ?case by simp
next
  case (Cons c cs)
  have nt: "node_type c \<noteq> str ''text''" and rest: "list_all (\<lambda>c. \<not> is_bare_text c) cs"
    using Cons.prems(1) by (simp_all add: is_bare_text_def)
  show ?case
  proof (cases "is_paragraph c")
    case False
    then show ?thesis using Cons.IH [OF rest, of texts acc] Cons.prems(2) nt
      by (simp add: is_paragraph_def)
  next
    case True
    with Cons.prems(2) obtain s more where c: "texts = s # more" "paragraph_of c s"
      "list_all2 paragraph_of (filter is_paragraph cs) more"
      by (auto simp add: list_all2_Cons1)
    have "list_chunks acc (c # cs) = list_chunks (acc @ [s]) cs"
      using True c(2)
      by (auto simp add: is_paragraph_def paragraph_of_def split: option.splits)
    then show ?thesis using Cons.IH [OF rest c(3), of "acc @ [s]"] c(1) by simp
  qed
qed

lemma list_items_paragraphs:
  "list_all (\<lambda>li. list_all (\<lambda>c. \<not> is_bare_text c) (item_parts li)) lis \<Longrightarrow>
   list_all2 (\<lambda>li texts. list_all2 paragraph_of (filter is_paragraph (item_parts li)) texts)
     lis textss \<Longrightarrow>
   list_items acc lis = Inr (acc @ map (join (str '' '')) textss)"
proof (induction lis arbitrary: acc textss)
  case Nil
  then show ?case by simp
next
  case (Cons li lis)
  from Cons.prems(2) obtain texts more where c: "textss = texts # more"
    "list_all2 paragraph_of (filter is_paragraph (item_parts li)) texts"
    "list_all2 (\<lambda>li texts. list_all2 paragraph_of (filter is_paragraph (item_parts li)) texts)
       lis more"
    by (auto simp add: list_all2_Cons1)
  have b: "list_all (\<lambda>c. \<not> is_bare_text c) (item_parts li)"
    "list_all (\<lambda>li. list_all (\<lambda>c. \<not> is_bare_text c) (item_parts li)) lis"
    using Cons.prems(1) by simp_all
  have "list_chunks [] (item_parts li) = Inr texts"
    using list_chunks_paragraphs [OF b(1) c(2), of "[]"] by simp
  then show ?case
    using Cons.IH [OF b(2) c(3), of "acc @ [join (str '' '') texts]"] c(1)
    by (simp add: item_parts_def)
qed

text \<open>
  C2, as the code has it. A list block, ordered or not, whose items have no bare-text
  parts yields exactly one list flowable when the library accepts every item's text. Its
  items are in the order of the input; each is the composed texts of the item's paragraph
  parts joined by a single space, the other parts being dropped; the bullet type is that
  of an ordered list exactly when the list's attribute says so. When the library refuses
  an item's text the walk ends with \<open>ValueError\<close>.
\<close>

theorem list_block_items:
  assumes "node_type n = str ''list''"
    and "node_children n = Some lis" and "node_attrs n = Some a"
    and "list_all (\<lambda>li. list_all (\<lambda>c. \<not> is_bare_text c) (item_parts li)) lis"
    and "list_all2 (\<lambda>li texts. list_all2 paragraph_of (filter is_paragraph (item_parts li)) texts)
           lis textss"
  shows "md_to_pdf parses [n] =
     (if list_all parses (map (join (str '' '')) textss)
      then Inr [ListFlowable
                  (map (\<lambda>texts. ListItem (Paragraph (join (str '' '') texts) (str ''Body''))) textss)
                  (if ordered a = Some True then str ''1'' else str ''bullet'') (str ''1'')]
      else Inl ValueError)"
proof -
  have t: "node_type n \<noteq> str ''heading''" "node_type n \<noteq> str ''paragraph''"
    "node_type n \<noteq> str ''block_quote''"
    using assms(1) by (simp_all add: str_def)
  have i: "list_items [] lis = Inr (map (join (str '' '')) textss)"
    using list_items_paragraphs [OF assms(4,5), of "[]"] by simp
  have o: "(case ordered a of None \<Rightarrow> False | Some b \<Rightarrow> b) = (ordered a = Some True)"
    by (simp split: option.splits)
  show ?thesis
    unfolding md_to_pdf_single block_def Let_def
    using assms(1-3) t i
    by (simp add: bullet_list_result o comp_def)
qed

theorem list_block_items_witness:
  "md_to_pdf no_tags [Node (str ''list'')
      (Some [Node (str ''list_item'')
               (Some [Node (str ''paragraph'') (Some [Node (str ''text'') None (Some (str ''foo'')) None None]) None None None])
               None None None,
             Node (str ''list_item'')
               (Some [Node (str ''paragraph'') (Some [Node (str ''text'') None (Some (str ''bar'')) None None]) None None None])
               None None None])
      None None (Some \<lparr>level = None, url = None, alt = None, ordered = Some False\<rparr>)]
   = Inr [ListFlowable [ListItem (Paragraph (str ''foo'') (str ''Body'')),
                        ListItem (Paragraph (str ''bar'') (str ''Body''))]
            (str ''bullet'') (str ''1'')] \<and>
   md_to_pdf no_tags [Node (str ''list'')
      (Some [Node (str ''list_item'')
               (Some [Node (str ''paragraph'') (Some [Node (str ''text'') None (Some (str ''a'')) None None]) None None None,
                      Node (str ''list'') (Some []) None None None,
                      Node (str ''paragraph'') (Some [Node (str ''text'') None (Some (str ''b'')) None None]) None None None])
               None None None,
             Node (str ''list_item'') None None None None])
      None None (Some \<lparr>level = None, url = None, alt = None, ordered = Some True\<rparr>)]
   = Inr [ListFlowable [ListItem (Paragraph (str ''a b'') (str ''Body'')),
                        ListItem (Paragraph [] (str ''Body''))]
            (str ''1'') (str ''1'')]"
proof -
  let ?p = "\<lambda>s. Node (str ''paragraph'') (Some [Node (str ''text'') None (Some s) None None]) None None None"
  let ?li = "\<lambda>s. Node (str ''list_item'') (Some [?p s]) None None None"
  let ?a = "\<lparr>level = None, url = None, alt = None, ordered = Some False\<rparr>"
  let ?b = "\<lparr>level = None, url = None, alt = None, ordered = Some True\<rparr>"
  let ?mixed = "Node (str ''list_item'')
       (Some [?p (str ''a''), Node (str ''list'') (Some []) None None None, ?p (str ''b'')])
       None None None"
  let ?empty = "Node (str ''list_item'') None None None None"
  have h1: "list_all (\<lambda>li. list_all (\<lambda>c. \<not> is_bare_text c) (item_parts li))
      [?li (str ''foo''), ?li (str ''bar'')]"
    "list_all2 (\<lambda>li texts. list_all2 paragraph_of (filter is_paragraph (item_parts li)) texts)
      [?li (str ''foo''), ?li (str ''bar'')] [[str ''foo''], [str ''bar'']]"
    by (simp_all add: item_parts_def is_paragraph_def is_bare_text_def paragraph_of_def str_def)
  have h2: "list_all (\<lambda>li. list_all (\<lambda>c. \<not> is_bare_text c) (item_parts li)) [?mixed, ?empty]"
    "list_all2 (\<lambda>li texts. list_all2 paragraph_of (filter is_paragraph (item_parts li)) texts)
      [?mixed, ?empty] [[str ''a'', str ''b''], []]"
    by (simp_all add: item_parts_def is_paragraph_def is_bare_text_def paragraph_of_def str_def)
  have p: "list_all no_tags (map (join (str '' '')) [[str ''foo''], [str ''bar'']])"
    "list_all no_tags (map (join (str '' '')) [[str ''a'', str ''b''], []])"
    by (simp_all add: no_tags_def str_def)
  have 1: "md_to_pdf no_tags [Node (str ''list'') (Some [?li (str ''foo''), ?li (str ''bar'')]) None None (Some ?a)]
    = Inr [ListFlowable
             (map (\<lambda>texts. ListItem (Paragraph (join (str '' '') texts) (str ''Body'')))
                [[str ''foo''], [str ''bar'']])
             (str ''bullet'') (str ''1'')]"
    using list_block_items [of "Node (str ''list'') (Some [?li (str ''foo''), ?li (str ''bar'')]) None None (Some ?a)"
        "[?li (str ''foo''), ?li (str ''bar'')]" ?a "[[str ''foo''], [str ''bar'']]" no_tags] h1 p(1)
    by simp
  have 2: "md_to_pdf no_tags [Node (str ''list'') (Some [?mixed, ?empty]) None None (Some ?b)]
    = Inr [ListFlowable
             (map (\<lambda>texts. ListItem (Paragraph (join (str '' '') texts) (str ''Body'')))
                [[str ''a'', str ''b''], []])
             (str ''1'') (str ''1'')]"
    using list_block_items [of "Node (str ''list'') (Some [?mixed, ?empty]) None None (Some ?b)"
        "[?mixed, ?empty]" ?b "[[str ''a'', str ''b''], []]" no_tags] h2 p(2)
    by simp
  have j: "str ''a'' @ str '' '' @ str ''b'' = str ''a b''"
    by (simp add: str_def)
  show ?thesis using 1 2 by (simp add: j)
qed

text \<open>
  C2 as stated fails twice. An item whose paragraph is the text \<open><b>x\<close> ends the walk with
  \<open>ValueError\<close>. And for a bare-text part the branch reads the key \<open>"text"\<close>, while the
  composer reads the text of a text node from its key \<open>"raw"\<close>: an item that holds such a
  text node ends the walk with \<open>KeyError\<close>.
\<close>

theorem list_block_raises:
  "md_to_pdf no_tags [Node (str ''list'')
      (Some [Node (str ''list_item'')
               (Some [Node (str ''paragraph'') (Some [Node (str ''text'') None (Some (str ''<b>x'')) None None]) None None None])
               None None None])
      None None (Some \<lparr>level = None, url = None, alt = None, ordered = Some False\<rparr>)]
   = Inl ValueError \<and>
   inline [Node (str ''text'') None (Some (str ''b'')) None None] = Inr (str ''b'') \<and>
   md_to_pdf no_tags [Node (str ''list'')
      (Some [Node (str ''list_item'')
               (Some [Node (str ''text'') None (Some (str ''b'')) None None])
               None None None])
      None None (Some \<lparr>level = None, url = None, alt = None, ordered = Some False\<rparr>)]
   = Inl (KeyError (str ''text''))"
  by (simp add: md_to_pdf_single block_def getitem_def bullet_list_result no_tags_def str_def)

subsection \<open>Tables\<close>

lemma map_err_rel: "list_all2 (\<lambda>x y. f x = Inr y) xs ys \<Longrightarrow> map_err f xs = Inr ys"
  by (induction xs ys rule: list_all2_induct) simp_all

lemma row_line_rel:
  assumes "list_all2 cell_of cells texts"
  shows "row_line cells = Inr (join (str '' | '') texts)"
proof -
  have "list_all2 (\<lambda>c s. ebind (getitem ''children'' (node_children c)) inline = Inr s) cells texts"
    using assms
    by (rule list_all2_mono) (auto simp add: cell_of_def split: option.splits)
  then show ?thesis by (simp add: row_line_def map_err_rel)
qed

lemma rows_rel:
  assumes "list_all2 row_of body btexts"
  shows "map_err (\<lambda>row. ebind (getitem ''children'' (node_children row)) row_line) body
           = Inr (map (join (str '' | '')) btexts)"
proof -
  have "list_all2 (\<lambda>r l. ebind (getitem ''children'' (node_children r)) row_line = Inr l)
          body (map (join (str '' | '')) btexts)"
    unfolding list_all2_map2 using assms
    by (rule list_all2_mono) (auto simp add: row_of_def row_line_rel split: option.splits)
  then show ?thesis by (rule map_err_rel)
qed

text \<open>
  C1, as the code has it. A table whose first row is the header yields exactly one Body
  paragraph when the library accepts its text: the header cells joined by " | ", a line of
  20 em dashes (U+2014), and each body row's cells joined by " | ", the lines joined by
  newlines. When the library refuses the text the walk ends with \<open>ValueError\<close>.
\<close>

theorem table_block_text:
  assumes "node_type n = str ''table''"
    and "node_children n = Some (header # body)"
    and "row_of header htexts" and "list_all2 row_of body btexts"
  shows "md_to_pdf parses [n] =
     (if parses (join [10] (join (str '' | '') htexts # replicate 20 8212 #
                            map (join (str '' | '')) btexts))
      then Inr [Paragraph
                  (join [10] (join (str '' | '') htexts # replicate 20 8212 #
                              map (join (str '' | '')) btexts))
                  (str ''Body'')]
      else Inl ValueError)"
proof -
  have t: "node_type n \<noteq> str ''heading''" "node_type n \<noteq> str ''paragraph''"
    "node_type n \<noteq> str ''block_quote''" "node_type n \<noteq> str ''list''"
    "node_type n \<noteq> str ''thematic_break''" "node_type n \<noteq> str ''code''"
    using assms(1) by (simp_all add: str_def)
  from assms(3) obtain hcells where h: "node_children header = Some hcells"
    "list_all2 cell_of hcells htexts"
    by (auto simp add: row_of_def split: option.splits)
  have d: "times [8212] 20 = replicate 20 8212"
    by (simp add: times_def)
  show ?thesis
    unfolding md_to_pdf_single block_def Let_def
    using assms(1,2) t h(1)
    by (simp add: row_line_rel [OF h(2)] rows_rel [OF assms(4)] para_sheet_Nil d)
qed

theorem table_block_text_witness:
  "md_to_pdf no_tags [Node (str ''table'')
      (Some [Node (str ''table_head'')
               (Some [Node (str ''table_cell'') (Some [Node (str ''text'') None (Some (str ''Pin'')) None None]) None None None,
                      Node (str ''table_cell'') (Some [Node (str ''text'') None (Some (str ''Use'')) None None]) None None None])
               None None None,
             Node (str ''table_row'')
               (Some [Node (str ''table_cell'') (Some [Node (str ''text'') None (Some (str ''D1'')) None None]) None None None,
                      Node (str ''table_cell'') (Some [Node (str ''text'') None (Some (str ''SCL'')) None None]) None None None])
               None None None])
      None None None]
   = Inr [Paragraph (str ''Pin | Use'' @ [10] @ replicate 20 8212 @ [10] @ str ''D1 | SCL'') (str ''Body'')]"
proof -
  let ?c = "\<lambda>s. Node (str ''table_cell'') (Some [Node (str ''text'') None (Some s) None None]) None None None"
  let ?h = "Node (str ''table_head'') (Some [?c (str ''Pin''), ?c (str ''Use'')]) None None None"
  let ?r = "Node (str ''table_row'') (Some [?c (str ''D1''), ?c (str ''SCL'')]) None None None"
  let ?t = "join [10] (join (str '' | '') [str ''Pin'', str ''Use''] # replicate 20 8212 #
                        map (join (str '' | '')) [[str ''D1'', str ''SCL'']])"
  have h: "row_of ?h [str ''Pin'', str ''Use'']" "list_all2 row_of [?r] [[str ''D1'', str ''SCL'']]"
    by (simp_all add: row_of_def cell_of_def)
  have p: "no_tags ?t"
    by (simp add: no_tags_def replicate_20 str_def)
  have "md_to_pdf no_tags [Node (str ''table'') (Some [?h, ?r]) None None None]
    = Inr [Paragraph ?t (str ''Body'')]"
    using table_block_text [of "Node (str ''table'') (Some [?h, ?r]) None None None" ?h "[?r]"
        "[str ''Pin'', str ''Use'']" "[[str ''D1'', str ''SCL'']]" no_tags] h p
    by simp
  then show ?thesis by (simp add: str_def)
qed

text \<open>What the walker yields for the header A, B and the row 1, 2.\<close>

lemma table_example_text:
  "md_to_pdf no_tags [Node (str ''table'')
      (Some [Node (str ''table_head'')
               (Some [Node (str ''table_cell'') (Some [Node (str ''text'') None (Some (str ''A'')) None None]) None None None,
                      Node (str ''table_cell'') (Some [Node (str ''text'') None (Some (str ''B'')) None None]) None None None])
               None None None,
             Node (str ''table_row'')
               (Some [Node (str ''table_cell'') (Some [Node (str ''text'') None (Some (str ''1'')) None None]) None None None,
                      Node (str ''table_cell'') (Some [Node (str ''text'') None (Some (str ''2'')) None None]) None None None])
               None None None])
      None None None]
   = Inr [Paragraph (str ''A | B'' @ [10] @ replicate 20 8212 @ [10] @ str ''1 | 2'')
            (str ''Body'')]"
  by (simp add: md_to_pdf_single block_def row_line_def para_sheet_Nil times_def
      replicate_20 no_tags_def str_def)

text \<open>
  C1 as stated fails twice. On its own example, the header A, B and the row 1, 2, the text
  is not the one with a separator of 20 hyphens. And a table whose header cell holds the
  code span \<open><b>\<close> ends the walk with \<open>ValueError\<close>.
\<close>

theorem table_separator_not_hyphens:
  "md_to_pdf no_tags [Node (str ''table'')
      (Some [Node (str ''table_head'')
               (Some [Node (str ''table_cell'') (Some [Node (str ''text'') None (Some (str ''A'')) None None]) None None None,
                      Node (str ''table_cell'') (Some [Node (str ''text'') None (Some (str ''B'')) None None]) None None None])
               None None None,
             Node (str ''table_row'')
               (Some [Node (str ''table_cell'') (Some [Node (str ''text'') None (Some (str ''1'')) None None]) None None None,
                      Node (str ''table_cell'') (Some [Node (str ''text'') None (Some (str ''2'')) None None]) None None None])
               None None None])
      None None None]
   \<noteq> Inr [Paragraph (str ''A | B'' @ [10] @ str ''--------------------'' @ [10] @ str ''1 | 2'')
            (str ''Body'')] \<and>
   md_to_pdf no_tags [Node (str ''table'')
      (Some [Node (str ''table_head'')
               (Some [Node (str ''table_cell'') (Some [Node (str ''codespan'') None (Some (str ''<b>'')) None None]) None None None])
               None None None])
      None None None]
   = Inl ValueError"
  by (simp add: md_to_pdf_single block_def row_line_def para_sheet_Nil times_def
      replicate_20 no_tags_def str_def)

subsection \<open>One instruction per block\<close>





section \<open>Properties of the build\<close>

subsection \<open>The two rendering paths\<close>

text \<open>
  Where the source folder exists and every command that is tried can be started, the
  external tool, when found, is run first with its default engine; the second command,
  with the alternate engine, is run exactly when the first one fails and the alternate
  engine is found; \<open>run_pandoc\<close> succeeds exactly when a command that was run exits with
  status zero; and the in-process renderer is called once, after the external attempts,
  when the tool is absent or every attempt failed, and not at all otherwise.
\<close>

lemma render_dispatch:
  assumes "src_exists h" and "\<forall>args. subprocess_run h args \<noteq> Cannot_start"
  shows "\<exists>trace. main h = (trace, Inr ()) \<and>
     (\<not> found (which h (str ''pandoc'')) \<longrightarrow> runs trace = []) \<and>
     (\<forall>pandoc. which h (str ''pandoc'') = Some pandoc \<and> pandoc \<noteq> [] \<longrightarrow>
        (let args = pandoc_args pandoc (OUT_MD h) (OUT_PDF h);
             args2 = args @ [str ''--pdf-engine=wkhtmltopdf'']
         in runs trace = (if subprocess_run h args \<noteq> Exit 0 \<and> found (which h (str ''wkhtmltopdf''))
                          then [args, args2] else [args]))) \<and>
     (snd (run_pandoc h (OUT_MD h) (OUT_PDF h)) = Inr True \<longleftrightarrow>
        (\<exists>args \<in> set (runs trace). subprocess_run h args = Exit 0)) \<and>
     fallbacks trace =
       (if \<not> found (which h (str ''pandoc'')) \<or>
           (\<forall>args \<in> set (runs trace). subprocess_run h args \<noteq> Exit 0) then 1 else 0) \<and>
     (fallbacks trace = 1 \<longrightarrow> last trace = Md_to_pdf (OUT_MD h) (OUT_PDF h))"
proof (cases "which h (str ''pandoc'')")
  case None
  then show ?thesis using assms(1)
    by (simp add: main_def run_pandoc_def found_def runs_def fallbacks_def)
next
  case (Some pandoc)
  show ?thesis
  proof (cases "pandoc = []")
    case True
    then show ?thesis using assms(1) Some
      by (simp add: main_def run_pandoc_def found_def runs_def fallbacks_def)
  next
    case False
    let ?args = "pandoc_args pandoc (OUT_MD h) (OUT_PDF h)"
    let ?args2 = "?args @ [str ''--pdf-engine=wkhtmltopdf'']"
    obtain s1 where s1: "subprocess_run h ?args = Exit s1"
      using assms(2) by (cases "subprocess_run h ?args") auto
    obtain s2 where s2: "subprocess_run h ?args2 = Exit s2"
      using assms(2) by (cases "subprocess_run h ?args2") auto
    show ?thesis using assms(1) Some False s1 s2
      by (simp add: main_def run_pandoc_def found_def runs_def fallbacks_def Let_def)
  qed
qed

text \<open>
  A command that is found but cannot be started raises \<open>OSError\<close>, which neither
  \<open>except\<close> clause of \<open>run_pandoc\<close> catches: the run ends there.
\<close>

lemma main_cannot_start:
  assumes "src_exists h" and "which h (str ''pandoc'') = Some pandoc" and "pandoc \<noteq> []"
    and "subprocess_run h (pandoc_args pandoc (OUT_MD h) (OUT_PDF h)) = Cannot_start"
  shows "main h = ([Run (pandoc_args pandoc (OUT_MD h) (OUT_PDF h))], Inl OSError)"
  using assms by (simp add: main_def run_pandoc_def)

text \<open>
  C8 at a host where the external tool is found and cannot be started: every external
  attempt that was made has failed, and the run ends with \<open>OSError\<close> without a call of
  the in-process renderer.
\<close>

theorem main_ends_without_fallback:
  "main \<lparr>root = str ''/repo'', src_exists = True,
       which = (\<lambda>name. if name = str ''pandoc'' then Some (str ''/usr/bin/pandoc'') else None),
       subprocess_run = (\<lambda>args. Cannot_start)\<rparr>
     = ([Run [str ''/usr/bin/pandoc'', str ''/repo/data/esphome-all.md'', str ''-o'',
              str ''/repo/data/esphome-all.pdf'', str ''--from'', str ''markdown+smart'',
              str ''--toc'']],
        Inl OSError) \<and>
   fallbacks [Run [str ''/usr/bin/pandoc'', str ''/repo/data/esphome-all.md'', str ''-o'',
              str ''/repo/data/esphome-all.pdf'', str ''--from'', str ''markdown+smart'',
              str ''--toc'']] = 0"
  by (simp add: main_def run_pandoc_def pandoc_args_def OUT_MD_def OUT_PDF_def fallbacks_def
      str_def)

subsection \<open>Heading demotion\<close>

lemma match_at_6: "match_at 6 s = match_at (Suc (Suc (Suc (Suc (Suc (Suc 0)))))) s"
  by (simp add: numeral_eq_Suc)

lemma repl_clamped: "repl 1 k = replicate (min 6 (k + 1)) 35 @ [32]"
proof -
  have "nat (min 6 (int k + 1)) = min 6 (k + 1)" by simp
  then show ?thesis by (simp add: repl_def times_def str_def)
qed

text \<open>
  A marker of one to six hashes at the start of the text, followed by a white space
  character, gets one more hash, at most six in all, and a single space in place of that
  character.
\<close>

lemma match_at_marker:
  assumes "1 \<le> k" and "is_space w"
  shows "k \<le> n \<Longrightarrow> match_at n (replicate k 35 @ w # rest) = Some (k, w, rest)"
proof (induction n)
  case 0
  then show ?case using assms(1) by simp
next
  case (Suc n)
  let ?s = "replicate k 35 @ w # rest"
  have w: "w \<noteq> 35" using assms(2) by (auto simp add: is_space_def)
  show ?case
  proof (cases "k = Suc n")
    case True
    then show ?thesis using assms(2) by simp
  next
    case False
    then have le: "k \<le> n" using Suc.prems by simp
    have "take (Suc n) ?s ! k = w"
      using le by (simp add: nth_append)
    moreover have "replicate (Suc n) (35::nat) ! k = 35"
      using le by (simp only: nth_replicate less_Suc_eq_le)
    ultimately have "take (Suc n) ?s \<noteq> replicate (Suc n) 35"
      using w by metis
    then show ?thesis using Suc.IH [OF le] by simp
  qed
qed

lemma demote_marker:
  assumes "1 \<le> k" and "k \<le> 6" and "is_space w"
  shows "demote_headings (replicate k 35 @ w # rest) 1 =
           replicate (min 6 (k + 1)) 35 @ 32 # sub_from 1 (w = 10) rest"
proof -
  obtain j where j: "k = Suc j" using assms(1) by (cases k) auto
  have "match_at 6 (replicate k 35 @ w # rest) = Some (k, w, rest)"
    using match_at_marker [OF assms(1,3) assms(2)] .
  then have "sub_from 1 True (35 # replicate j 35 @ w # rest) =
      repl 1 k @ sub_from 1 (w = 10) rest"
    using j by simp
  then show ?thesis
    using j by (simp add: demote_headings_def repl_clamped)
qed

lemma demote_headings_examples:
  "demote_headings (str ''# Title'') 1 = str ''## Title''"
  "demote_headings (str ''a'' @ [10] @ str ''##### x'') 1 = str ''a'' @ [10] @ str ''###### x''"
  "demote_headings (str ''###### x'') 1 = str ''###### x''"
  "demote_headings (str ''####### x'') 1 = str ''####### x''"
  "demote_headings (str ''a # b'') 1 = str ''a # b''"
  by (simp_all add: demote_headings_def match_at_6 repl_clamped is_space_def str_def)

text \<open>
  C10 at a line that holds nothing but the hashes: the newline after them is the white
  space that the pattern consumes, so the next line is joined to the marker.
\<close>

theorem demote_headings_joins_next_line:
  "demote_headings (str ''#'' @ [10] @ str ''foo'') 1 = str ''## foo'' \<and>
   demote_headings (str ''# Example'' @ [10] @ str ''#'' @ [10] @ str ''sensor:'') 1
     = str ''## Example'' @ [10] @ str ''## sensor:''"
  by (simp add: demote_headings_def match_at_6 repl_clamped is_space_def str_def)

end
